theory Spec2Isabelle
  imports Complex_Main
begin

section \<open>Python values, exceptions and arithmetic\<close>

text \<open>
  The library \<^verbatim>\<open>functions/fixed_income.py\<close> is a set of closed-form formulas over Python
  numbers. Each function is embedded twice, under two readings of the arithmetic.

  \<^bold>\<open>Exact arithmetic\<close> (this section and the next): a Python \<^verbatim>\<open>float\<close> (or \<^verbatim>\<open>int\<close>) is a
  \<^typ>\<open>real\<close>, so rounding, overflow and underflow of IEEE-754 doubles are abstracted away.
  These definitions carry the source's names. What is kept is everything the interpreter
  decides by inspecting the operands:
  \<^item> true division \<^verbatim>\<open>a / b\<close> raises \<^verbatim>\<open>ZeroDivisionError\<close> when \<^verbatim>\<open>b\<close> is zero
    (for floats as for ints; no infinity or NaN is produced);
  \<^item> \<^verbatim>\<open>x ** y\<close> is 1 when \<^verbatim>\<open>y\<close> is zero, raises \<^verbatim>\<open>ZeroDivisionError\<close> when \<^verbatim>\<open>x\<close> is zero
    and \<^verbatim>\<open>y\<close> negative, and returns a \<^verbatim>\<open>complex\<close> when \<^verbatim>\<open>x\<close> is negative and \<^verbatim>\<open>y\<close> is
    not an integer;
  \<^item> an exception is either raised (\<open>Inl\<close> of the result) or merely constructed and
    returned as an ordinary object (a value under \<open>Inr\<close>).

  \<^bold>\<open>Double arithmetic\<close> (the sections on binary64 below): the same source lines over
  IEEE-754 doubles, with rounding to nearest (ties to even), gradual underflow, the
  infinities and NaN, and the \<^verbatim>\<open>OverflowError\<close> of \<^verbatim>\<open>**\<close> and \<^verbatim>\<open>math.exp\<close>. These
  definitions carry the suffix \<open>_f64\<close>. A statement about the exact definitions is a
  statement about the formulas; what the running code returns is what the \<open>_f64\<close>
  definitions return.
\<close>

datatype exn = ZeroDivisionError | OverflowError | ValueError string

datatype num = PyFloat real | PyComplex complex

datatype pyval = Number num | ExcObject exn

definition bind_result :: "exn + 'a \<Rightarrow> ('a \<Rightarrow> exn + 'b) \<Rightarrow> exn + 'b" where
  "bind_result x f = (case x of Inl e \<Rightarrow> Inl e | Inr v \<Rightarrow> f v)"

text \<open>\<^verbatim>\<open>a / b\<close> on two floats.\<close>

definition float_truediv :: "real \<Rightarrow> real \<Rightarrow> exn + real" where
  "float_truediv a b = (if b = 0 then Inl ZeroDivisionError else Inr (a / b))"

text \<open>
  \<^verbatim>\<open>x ** y\<close> on two floats (an \<^verbatim>\<open>int\<close> operand is converted first). The order of the
  tests is that of the interpreter's float power. For a negative base and a fractional
  exponent the interpreter hands over to the complex power, which computes in polar form
  with modulus \<open>\<bar>x\<bar> ** y\<close> and phase \<open>pi * y\<close>.
\<close>

definition float_pow :: "real \<Rightarrow> real \<Rightarrow> exn + num" where
  "float_pow x y =
     (if y = 0 then Inr (PyFloat 1)
      else if x = 0 then (if y < 0 then Inl ZeroDivisionError else Inr (PyFloat 0))
      else if x < 0 then
        (if of_int \<lfloor>y\<rfloor> = y then Inr (PyFloat (x powi \<lfloor>y\<rfloor>))
         else Inr (PyComplex (of_real (\<bar>x\<bar> powr y) * cis (pi * y))))
      else Inr (PyFloat (x powr y)))"

text \<open>Arithmetic where one operand may be the complex result of a power.\<close>

fun to_complex :: "num \<Rightarrow> complex" where
  "to_complex (PyFloat x) = of_real x"
| "to_complex (PyComplex z) = z"

fun num_mul :: "num \<Rightarrow> num \<Rightarrow> num" where
  "num_mul (PyFloat a) (PyFloat b) = PyFloat (a * b)"
| "num_mul a b = PyComplex (to_complex a * to_complex b)"

fun num_sub :: "num \<Rightarrow> num \<Rightarrow> num" where
  "num_sub (PyFloat a) (PyFloat b) = PyFloat (a - b)"
| "num_sub a b = PyComplex (to_complex a - to_complex b)"

fun num_truediv :: "num \<Rightarrow> num \<Rightarrow> exn + num" where
  "num_truediv (PyFloat a) (PyFloat b) =
     (if b = 0 then Inl ZeroDivisionError else Inr (PyFloat (a / b)))"
| "num_truediv a b =
     (if to_complex b = 0 then Inl ZeroDivisionError
      else Inr (PyComplex (to_complex a / to_complex b)))"

section \<open>The formulas of \<^verbatim>\<open>fixed_income.py\<close> over exact arithmetic\<close>

subsection \<open>Simple interest\<close>

text \<open>\<^verbatim>\<open>return P*(1 + t*r)\<close>\<close>

definition simple_interest_fv :: "real \<Rightarrow> real \<Rightarrow> real \<Rightarrow> real" where
  "simple_interest_fv P r t = P * (1 + t * r)"

text \<open>\<^verbatim>\<open>return V_t * (1/(1 + t * r))\<close>\<close>

definition simple_interest_pv :: "real \<Rightarrow> real \<Rightarrow> real \<Rightarrow> exn + real" where
  "simple_interest_pv V_t r t =
     bind_result (float_truediv 1 (1 + t * r)) (\<lambda>d. Inr (V_t * d))"

subsection \<open>Perpetuity\<close>


subsection \<open>Compounded interest\<close>

text \<open>\<^verbatim>\<open>return P*(1 + r/m)**(t*m)\<close>\<close>

definition compounded_interest_fv :: "real \<Rightarrow> real \<Rightarrow> real \<Rightarrow> real \<Rightarrow> exn + num" where
  "compounded_interest_fv P r t m =
     bind_result (float_truediv r m) (\<lambda>q.
     bind_result (float_pow (1 + q) (t * m)) (\<lambda>p.
     Inr (num_mul (PyFloat P) p)))"

text \<open>\<^verbatim>\<open>return V_t*(1/(1 + r/m)**(t*m))\<close>\<close>

definition compounded_interest_pv :: "real \<Rightarrow> real \<Rightarrow> real \<Rightarrow> real \<Rightarrow> exn + num" where
  "compounded_interest_pv V_t r t m =
     bind_result (float_truediv r m) (\<lambda>q.
     bind_result (float_pow (1 + q) (t * m)) (\<lambda>p.
     bind_result (num_truediv (PyFloat 1) p) (\<lambda>d.
     Inr (num_mul (PyFloat V_t) d))))"

subsection \<open>Annuities\<close>




subsection \<open>Continuous compounding\<close>



subsection \<open>Effective rate\<close>

text \<open>
  \<^verbatim>\<open>def effective_rate(r, m=1, method="continuous")\<close>. An optional parameter the caller
  leaves out is \<open>None\<close> and takes the default of the signature. The last branch
  \<^emph>\<open>returns\<close> the \<^verbatim>\<open>ValueError\<close> object, it does not raise it.
\<close>

definition effective_rate :: "real \<Rightarrow> real option \<Rightarrow> string option \<Rightarrow> exn + pyval" where
  "effective_rate r m_arg method_arg =
     (let m = (case m_arg of None \<Rightarrow> 1 | Some m' \<Rightarrow> m');
          method = (case method_arg of None \<Rightarrow> ''continuous'' | Some s \<Rightarrow> s)
      in if method = ''continuous'' then Inr (Number (PyFloat (exp r - 1)))
         else if method = ''periodic'' then
           bind_result (float_truediv r m) (\<lambda>q.
           bind_result (float_pow (1 + q) m) (\<lambda>p.
           Inr (Number (num_sub p (PyFloat 1)))))
         else Inr (ExcObject (ValueError ''The compounding method is not valid'')))"

section \<open>IEEE-754 binary64 arithmetic\<close>

text \<open>
  A double is a finite real that the format represents, an infinity or NaN. The two zeros
  are identified: they compare equal, Python's \<^verbatim>\<open>/\<close> raises on either, and no operation of
  this library turns the sign of a zero into anything but the sign of another zero.
  Every operation computes the exact result and rounds it; the arguments of the
  functions below are meant to be doubles.
\<close>

datatype f64 = Fin real | PInf | NInf | NaN

text \<open>
  Rounding to nearest, ties to even. \<open>expo x\<close> is the binary exponent of \<open>x\<close>, held at
  -1022 for the subnormal numbers; a double with this exponent is a multiple of
  \<open>2 ^ (expo x - 52)\<close>, and \<open>round64 x\<close> is the nearest such multiple. \<open>finish\<close> turns a
  rounded magnitude of \<open>2 ^ 1024\<close> or more into an infinity.
\<close>

definition expo :: "real \<Rightarrow> int" where
  "expo x = max \<lfloor>log 2 \<bar>x\<bar>\<rfloor> (- 1022)"

definition round_even :: "real \<Rightarrow> int" where
  "round_even y =
     (let f = \<lfloor>y\<rfloor>; d = y - of_int f
      in if d < 1 / 2 then f else if 1 / 2 < d then f + 1 else if even f then f else f + 1)"

definition round64 :: "real \<Rightarrow> real" where
  "round64 x = (let q = 2 powi (expo x - 52) in of_int (round_even (x / q)) * q)"

definition finish :: "real \<Rightarrow> f64" where
  "finish x =
     (let y = round64 x
      in if 2 ^ 1024 \<le> y then PInf else if y \<le> - (2 ^ 1024) then NInf else Fin y)"

text \<open>
  The normal range of the doubles, from \<open>2 ^ -1022\<close> (Python's \<^verbatim>\<open>sys.float_info.min\<close>) to
  \<open>2 ^ 1023\<close> in magnitude: a real in this range is rounded to a finite double with a
  relative error of at most \<open>2 ^ -53\<close>.
\<close>

definition in_normal_range :: "real \<Rightarrow> bool" where
  "in_normal_range x = (2 powi (- 1022) \<le> \<bar>x\<bar> \<and> \<bar>x\<bar> \<le> 2 ^ 1023)"

text \<open>Negation, absolute value, sign and comparison (a comparison with NaN is false).\<close>

fun f64_neg :: "f64 \<Rightarrow> f64" where
  "f64_neg (Fin a) = Fin (- a)"
| "f64_neg PInf = NInf"
| "f64_neg NInf = PInf"
| "f64_neg NaN = NaN"

fun f64_abs :: "f64 \<Rightarrow> f64" where
  "f64_abs (Fin a) = Fin \<bar>a\<bar>"
| "f64_abs PInf = PInf"
| "f64_abs NInf = PInf"
| "f64_abs NaN = NaN"

fun f64_sgn :: "f64 \<Rightarrow> int" where
  "f64_sgn (Fin a) = (if a < 0 then - 1 else if a = 0 then 0 else 1)"
| "f64_sgn PInf = 1"
| "f64_sgn NInf = - 1"
| "f64_sgn NaN = 0"

fun f64_ge :: "f64 \<Rightarrow> f64 \<Rightarrow> bool" where
  "f64_ge NaN b = False"
| "f64_ge a NaN = False"
| "f64_ge PInf b = True"
| "f64_ge a NInf = True"
| "f64_ge (Fin a) (Fin b) = (b \<le> a)"
| "f64_ge (Fin a) PInf = False"
| "f64_ge NInf b = False"

definition f64_gt :: "f64 \<Rightarrow> f64 \<Rightarrow> bool" where
  "f64_gt a b = (f64_ge a b \<and> a \<noteq> b)"

text \<open>
  \<^verbatim>\<open>a + b\<close>, \<^verbatim>\<open>a - b\<close> and \<^verbatim>\<open>a * b\<close> on two floats never raise: an overflow gives an
  infinity, an undefined combination NaN.
\<close>

fun f64_add :: "f64 \<Rightarrow> f64 \<Rightarrow> f64" where
  "f64_add NaN b = NaN"
| "f64_add a NaN = NaN"
| "f64_add (Fin a) (Fin b) = finish (a + b)"
| "f64_add PInf NInf = NaN"
| "f64_add NInf PInf = NaN"
| "f64_add PInf b = PInf"
| "f64_add a PInf = PInf"
| "f64_add NInf b = NInf"
| "f64_add a NInf = NInf"

definition f64_sub :: "f64 \<Rightarrow> f64 \<Rightarrow> f64" where
  "f64_sub a b = f64_add a (f64_neg b)"

fun f64_mul :: "f64 \<Rightarrow> f64 \<Rightarrow> f64" where
  "f64_mul NaN b = NaN"
| "f64_mul a NaN = NaN"
| "f64_mul (Fin a) (Fin b) = finish (a * b)"
| "f64_mul a b =
     (let s = f64_sgn a * f64_sgn b
      in if s = 0 then NaN else if 0 < s then PInf else NInf)"

text \<open>
  The division of the hardware, and Python's \<^verbatim>\<open>a / b\<close> on two floats, which tests the
  divisor first and raises \<^verbatim>\<open>ZeroDivisionError\<close> when it is zero. (With a zero divisor
  the hardware's result takes the sign of the numerator, the zero being read as positive;
  neither \<^verbatim>\<open>/\<close> nor the complex quotient below divides by a zero.)
\<close>

fun ieee_div :: "f64 \<Rightarrow> f64 \<Rightarrow> f64" where
  "ieee_div NaN b = NaN"
| "ieee_div a NaN = NaN"
| "ieee_div (Fin a) (Fin b) =
     (if b = 0 then (if a = 0 then NaN else if 0 < a then PInf else NInf)
      else finish (a / b))"
| "ieee_div (Fin a) b = Fin 0"
| "ieee_div a (Fin b) = (if (f64_sgn a < 0) = (b < 0) then PInf else NInf)"
| "ieee_div a b = NaN"

definition f64_truediv :: "f64 \<Rightarrow> f64 \<Rightarrow> exn + f64" where
  "f64_truediv a b = (if b = Fin 0 then Inl ZeroDivisionError else Inr (ieee_div a b))"

text \<open>
  Values: a float or a complex number (a pair of doubles); and what \<open>effective_rate\<close>
  can return.
\<close>

datatype val64 = Float64 f64 | Complex64 f64 f64




fun libm_cos :: "f64 \<Rightarrow> f64" where
  "libm_cos (Fin x) = Fin (round64 (cos x))"
| "libm_cos v = NaN"

fun libm_sin :: "f64 \<Rightarrow> f64" where
  "libm_sin (Fin x) = Fin (round64 (sin x))"
| "libm_sin v = NaN"

definition is_inf :: "f64 \<Rightarrow> bool" where
  "is_inf v = (v = PInf \<or> v = NInf)"

definition is_odd_integer :: "real \<Rightarrow> bool" where
  "is_odd_integer y = (of_int \<lfloor>y\<rfloor> = y \<and> odd \<lfloor>y\<rfloor>)"

text \<open>
  \<^verbatim>\<open>x ** y\<close> on two floats, case by case as the interpreter's float power decides it: a
  zero exponent, NaN, an infinite exponent, an infinite base, a zero base, a negative base
  with a fractional exponent (the complex power, in polar form with the phase
  \<open>atan2(0, x) * y\<close>), a base of magnitude 1, and at last the C library's \<open>pow\<close> on
  the magnitude, negated for a negative base and an odd exponent. An overflow of \<open>pow\<close>
  raises \<^verbatim>\<open>OverflowError\<close>; an underflow returns the rounded result, possibly zero.
  (The last case of \<open>float_pow_f64\<close> completes the pattern match and cannot arise: an
  exponent that is not finite is dealt with before it.)
\<close>

definition complex_pow_f64 :: "real \<Rightarrow> real \<Rightarrow> exn + val64" where
  "complex_pow_f64 x y =
     (let len = finish (\<bar>x\<bar> powr y);
          phase = f64_mul (Fin (round64 pi)) (Fin y);
          re = f64_mul len (libm_cos phase);
          im = f64_mul len (libm_sin phase)
      in if is_inf re \<or> is_inf im then Inl OverflowError else Inr (Complex64 re im))"

definition float_pow_f64 :: "f64 \<Rightarrow> f64 \<Rightarrow> exn + val64" where
  "float_pow_f64 v w =
     (if w = Fin 0 then Inr (Float64 (Fin 1))
      else if v = NaN then Inr (Float64 NaN)
      else if w = NaN then Inr (Float64 (if v = Fin 1 then Fin 1 else NaN))
      else if is_inf w then
        (if f64_abs v = Fin 1 then Inr (Float64 (Fin 1))
         else if (w = PInf) = f64_gt (f64_abs v) (Fin 1) then Inr (Float64 PInf)
         else Inr (Float64 (Fin 0)))
      else
        (case (v, w) of
           (Fin x, Fin y) \<Rightarrow>
             if x = 0 then (if y < 0 then Inl ZeroDivisionError else Inr (Float64 (Fin 0)))
             else if x < 0 \<and> of_int \<lfloor>y\<rfloor> \<noteq> y then complex_pow_f64 x y
             else if \<bar>x\<bar> = 1 then
               Inr (Float64 (Fin (if x < 0 \<and> is_odd_integer y then - 1 else 1)))
             else
               (case finish (\<bar>x\<bar> powr y) of
                  Fin p \<Rightarrow> Inr (Float64 (Fin (if x < 0 \<and> is_odd_integer y then - p else p)))
                | u \<Rightarrow> Inl OverflowError)
         | (u, Fin y) \<Rightarrow>
             if 0 < y then Inr (Float64 (if is_odd_integer y then u else PInf))
             else Inr (Float64 (Fin 0))
         | (u, u') \<Rightarrow> Inr (Float64 NaN)))"

text \<open>
  Arithmetic on values. With a complex operand a float operand is widened to a complex
  with imaginary part 0, and the product, difference and quotient are computed
  componentwise by the interpreter's complex routines (the quotient by scaling with the
  larger component of the divisor; \<^verbatim>\<open>ZeroDivisionError\<close> when the divisor is zero).
\<close>

fun to_pair :: "val64 \<Rightarrow> f64 \<times> f64" where
  "to_pair (Float64 x) = (x, Fin 0)"
| "to_pair (Complex64 re im) = (re, im)"

definition c_prod :: "f64 \<times> f64 \<Rightarrow> f64 \<times> f64 \<Rightarrow> val64" where
  "c_prod a b =
     Complex64 (f64_sub (f64_mul (fst a) (fst b)) (f64_mul (snd a) (snd b)))
               (f64_add (f64_mul (fst a) (snd b)) (f64_mul (snd a) (fst b)))"


definition c_quot :: "f64 \<times> f64 \<Rightarrow> f64 \<times> f64 \<Rightarrow> exn + val64" where
  "c_quot a b =
     (let abs_breal = f64_abs (fst b); abs_bimag = f64_abs (snd b)
      in if f64_ge abs_breal abs_bimag then
           (if abs_breal = Fin 0 then Inl ZeroDivisionError
            else
              (let ratio = ieee_div (snd b) (fst b);
                   denom = f64_add (fst b) (f64_mul (snd b) ratio)
               in Inr (Complex64
                    (ieee_div (f64_add (fst a) (f64_mul (snd a) ratio)) denom)
                    (ieee_div (f64_sub (snd a) (f64_mul (fst a) ratio)) denom))))
         else if f64_ge abs_bimag abs_breal then
           (let ratio = ieee_div (fst b) (snd b);
                denom = f64_add (f64_mul (fst b) ratio) (snd b)
            in Inr (Complex64
                 (ieee_div (f64_add (f64_mul (fst a) ratio) (snd a)) denom)
                 (ieee_div (f64_sub (f64_mul (snd a) ratio) (fst a)) denom)))
         else Inr (Complex64 NaN NaN))"

fun val_mul :: "val64 \<Rightarrow> val64 \<Rightarrow> val64" where
  "val_mul (Float64 a) (Float64 b) = Float64 (f64_mul a b)"
| "val_mul a b = c_prod (to_pair a) (to_pair b)"


fun val_truediv :: "val64 \<Rightarrow> val64 \<Rightarrow> exn + val64" where
  "val_truediv (Float64 a) (Float64 b) =
     (case f64_truediv a b of Inl e \<Rightarrow> Inl e | Inr q \<Rightarrow> Inr (Float64 q))"
| "val_truediv a b = c_quot (to_pair a) (to_pair b)"

section \<open>The formulas of \<^verbatim>\<open>fixed_income.py\<close> over doubles\<close>

text \<open>The same source lines as above, operation by operation.\<close>

definition simple_interest_fv_f64 :: "f64 \<Rightarrow> f64 \<Rightarrow> f64 \<Rightarrow> f64" where
  "simple_interest_fv_f64 P r t = f64_mul P (f64_add (Fin 1) (f64_mul t r))"

definition simple_interest_pv_f64 :: "f64 \<Rightarrow> f64 \<Rightarrow> f64 \<Rightarrow> exn + f64" where
  "simple_interest_pv_f64 V_t r t =
     bind_result (f64_truediv (Fin 1) (f64_add (Fin 1) (f64_mul t r))) (\<lambda>d.
     Inr (f64_mul V_t d))"

definition perpetuity_pv_f64 :: "f64 \<Rightarrow> f64 \<Rightarrow> exn + f64" where
  "perpetuity_pv_f64 C r = f64_truediv C r"

definition compounded_interest_fv_f64 :: "f64 \<Rightarrow> f64 \<Rightarrow> f64 \<Rightarrow> f64 \<Rightarrow> exn + val64" where
  "compounded_interest_fv_f64 P r t m =
     bind_result (f64_truediv r m) (\<lambda>q.
     bind_result (float_pow_f64 (f64_add (Fin 1) q) (f64_mul t m)) (\<lambda>p.
     Inr (val_mul (Float64 P) p)))"

definition compounded_interest_pv_f64 :: "f64 \<Rightarrow> f64 \<Rightarrow> f64 \<Rightarrow> f64 \<Rightarrow> exn + val64" where
  "compounded_interest_pv_f64 V_t r t m =
     bind_result (f64_truediv r m) (\<lambda>q.
     bind_result (float_pow_f64 (f64_add (Fin 1) q) (f64_mul t m)) (\<lambda>p.
     bind_result (val_truediv (Float64 (Fin 1)) p) (\<lambda>d.
     Inr (val_mul (Float64 V_t) d))))"







section \<open>Auxiliary facts: exact arithmetic\<close>

lemma bind_result_Inr: "bind_result (Inr v) f = f v"
  by (simp add: bind_result_def)

lemma bind_result_Inl: "bind_result (Inl e) f = Inl e"
  by (simp add: bind_result_def)

lemma float_truediv_nonzero: "b \<noteq> 0 \<Longrightarrow> float_truediv a b = Inr (a / b)"
  by (simp add: float_truediv_def)


lemma float_pow_pos: "0 < x \<Longrightarrow> float_pow x y = Inr (PyFloat (x powr y))"
  by (simp add: float_pow_def)


lemma float_pow_of_int_nonzero:
  "x \<noteq> 0 \<Longrightarrow> float_pow x (of_int n) = Inr (PyFloat (x powi n))"
  by (simp add: float_pow_def powr_real_of_int')

lemma float_pow_of_nat: "float_pow x (of_nat k) = Inr (PyFloat (x ^ k))"
proof (cases "x = 0")
  case True
  then show ?thesis by (simp add: float_pow_def zero_power)
next
  case False
  then show ?thesis
    using float_pow_of_int_nonzero[of x "int k"] by simp
qed







section \<open>Auxiliary facts: rounding\<close>

text \<open>The exponent of a number between two consecutive powers of two.\<close>

lemma expo_eqI:
  assumes "2 powi e \<le> \<bar>x\<bar>" and "\<bar>x\<bar> < 2 powi (e + 1)" and "- 1022 \<le> e"
  shows "expo x = e"
proof -
  have pos: "0 < \<bar>x\<bar>"
  proof -
    have "(0::real) < 2 powi e" by simp
    with assms(1) show ?thesis by linarith
  qed
  have p1: "(2::real) powr real_of_int e = 2 powi e"
    by (rule powr_real_of_int') simp_all
  have p2: "(2::real) powr real_of_int (e + 1) = 2 powi (e + 1)"
    by (rule powr_real_of_int') simp_all
  have "2 powr real_of_int e \<le> \<bar>x\<bar> \<and> \<bar>x\<bar> < 2 powr real_of_int (e + 1)"
    using assms(1,2) by (simp only: p1 p2)
  then have "\<lfloor>log 2 \<bar>x\<bar>\<rfloor> = e"
    using pos floor_log_eq_powr_iff [of "\<bar>x\<bar>" 2 e] by simp
  then show ?thesis using assms(3) by (simp add: expo_def)
qed

lemma expo_subnormal:
  assumes "x \<noteq> 0" and "\<bar>x\<bar> < 2 powi (- 1022)"
  shows "expo x = - 1022"
proof -
  have pos: "0 < \<bar>x\<bar>" using assms(1) by simp
  have "(2::real) powr real_of_int (- 1022) = 2 powi (- 1022)"
    by (rule powr_real_of_int') simp_all
  with assms(2) have "\<bar>x\<bar> < 2 powr real_of_int (- 1022)" by simp
  then have "log 2 \<bar>x\<bar> < real_of_int (- 1022)"
    using pos by (simp add: log_less_iff)
  then have "\<lfloor>log 2 \<bar>x\<bar>\<rfloor> < - 1022" by (simp add: floor_less_iff)
  then show ?thesis by (simp add: expo_def)
qed

lemma round64_zero: "round64 0 = 0"
  by (simp add: round64_def round_even_def)

lemma round64_one: "round64 1 = 1"
proof -
  have "expo 1 = 0" by (rule expo_eqI) simp_all
  then show ?thesis by (simp add: round64_def round_even_def Let_def)
qed

text \<open>Rounding to even is odd, monotone and fixes the integers.\<close>

lemma round_even_of_int: "round_even (of_int n) = n"
  by (simp add: round_even_def)

lemma round_even_zero: "round_even 0 = 0"
  by (simp add: round_even_def)

lemma round_even_range: "\<lfloor>y\<rfloor> \<le> round_even y \<and> round_even y \<le> \<lfloor>y\<rfloor> + 1"
  by (simp add: round_even_def Let_def)

lemma round_even_mono:
  assumes "a \<le> b"
  shows "round_even a \<le> round_even b"
proof (cases "\<lfloor>a\<rfloor> = \<lfloor>b\<rfloor>")
  case True
  have "a - of_int \<lfloor>a\<rfloor> \<le> b - of_int \<lfloor>b\<rfloor>" using assms True by simp
  then show ?thesis using True by (auto simp: round_even_def Let_def)
next
  case False
  have "\<lfloor>a\<rfloor> \<le> \<lfloor>b\<rfloor>" using assms by (rule floor_mono)
  with False have "\<lfloor>a\<rfloor> + 1 \<le> \<lfloor>b\<rfloor>" by simp
  then show ?thesis
    using round_even_range [of a] round_even_range [of b] by linarith
qed

lemma round_even_minus: "round_even (- y) = - round_even y"
proof (cases "y \<in> \<int>")
  case True
  then obtain n where "y = of_int n" by (auto elim: Ints_cases)
  then have "- y = of_int (- n)" by simp
  then show ?thesis using \<open>y = of_int n\<close> by (simp only: round_even_of_int)
next
  case False
  then have ne: "y \<noteq> of_int \<lfloor>y\<rfloor>" by (metis Ints_of_int)
  then have fl: "\<lfloor>- y\<rfloor> = - \<lfloor>y\<rfloor> - 1"
    by (simp add: floor_minus ceiling_altdef)
  define d where "d = y - of_int \<lfloor>y\<rfloor>"
  have d': "- y - of_int \<lfloor>- y\<rfloor> = 1 - d" by (simp add: fl d_def)
  have par: "even (- \<lfloor>y\<rfloor> - 1) = odd \<lfloor>y\<rfloor>" by simp
  show ?thesis
    unfolding round_even_def Let_def d' fl d_def [symmetric] par
    by (auto simp: d_def)
qed

lemma round64_minus: "round64 (- x) = - round64 x"
  by (simp add: round64_def expo_def Let_def round_even_minus)

lemma round64_nonneg:
  assumes "0 \<le> x"
  shows "0 \<le> round64 x"
proof -
  let ?q = "(2::real) powi (expo x - 52)"
  have q: "0 < ?q" by simp
  then have "0 \<le> x / ?q" using assms by simp
  then have "round_even 0 \<le> round_even (x / ?q)"
    by (rule round_even_mono)
  then have "0 \<le> round_even (x / ?q)" by (simp only: round_even_zero)
  then show ?thesis using q by (simp add: round64_def Let_def)
qed

lemma expo_upper:
  assumes "0 < x"
  shows "x < 2 powi (expo x + 1)"
proof -
  have "\<lfloor>log 2 x\<rfloor> \<le> expo x" using assms by (simp add: expo_def)
  then have "(of_int \<lfloor>log 2 x\<rfloor> :: real) \<le> of_int (expo x)"
    by (simp only: of_int_le_iff)
  moreover have "log 2 x < of_int \<lfloor>log 2 x\<rfloor> + 1"
    by (rule real_of_int_floor_add_one_gt)
  ultimately have "log 2 x < real_of_int (expo x) + 1" by linarith
  then have "log 2 x < real_of_int (expo x + 1)" by simp
  then have "x < 2 powr real_of_int (expo x + 1)"
    using assms by (simp add: log_less_iff)
  also have "(2::real) powr real_of_int (expo x + 1) = 2 powi (expo x + 1)"
    by (rule powr_real_of_int') simp_all
  finally show ?thesis .
qed

lemma expo_lower:
  assumes "0 < x" and "- 1022 < expo x"
  shows "2 powi (expo x) \<le> x"
proof -
  have e: "expo x = \<lfloor>log 2 x\<rfloor>" using assms by (simp add: expo_def max_def split: if_splits)
  have "real_of_int (expo x) \<le> log 2 x" unfolding e by simp
  then have "2 powr real_of_int (expo x) \<le> x"
    using assms(1) by (simp add: le_log_iff)
  moreover have "(2::real) powr real_of_int (expo x) = 2 powi (expo x)"
    by (rule powr_real_of_int') simp_all
  ultimately show ?thesis by simp
qed

lemma expo_mono:
  assumes "0 < x" and "x \<le> y"
  shows "expo x \<le> expo y"
proof -
  have "log 2 x \<le> log 2 y" using assms by simp
  then have "\<lfloor>log 2 x\<rfloor> \<le> \<lfloor>log 2 y\<rfloor>" by (rule floor_mono)
  then show ?thesis using assms by (simp add: expo_def)
qed


lemma round64_upper:
  assumes "0 < x"
  shows "round64 x \<le> 2 powi (expo x + 1)"
proof -
  let ?q = "(2::real) powi (expo x - 52)"
  have q: "0 < ?q" by simp
  have split: "(2::real) powi (expo x + 1) = of_int (2 ^ 53) * ?q"
    using power_int_add [of "2::real" "expo x - 52" 53] by (simp add: mult.commute add.commute)
  have "x / ?q \<le> of_int (2 ^ 53)"
    using expo_upper [OF assms] q unfolding split by (simp add: pos_divide_le_eq)
  then have "round_even (x / ?q) \<le> round_even (of_int (2 ^ 53))"
    by (rule round_even_mono)
  then have "round_even (x / ?q) \<le> 2 ^ 53" by (simp only: round_even_of_int)
  then have "of_int (round_even (x / ?q)) \<le> (of_int (2 ^ 53) :: real)"
    by (simp only: of_int_le_iff)
  then have "of_int (round_even (x / ?q)) * ?q \<le> of_int (2 ^ 53) * ?q"
    using q by (simp only: mult_le_cancel_right_pos)
  then show ?thesis unfolding split by (simp add: round64_def Let_def)
qed

lemma round64_lower:
  assumes "0 < x" and "- 1022 < expo x"
  shows "2 powi (expo x) \<le> round64 x"
proof -
  let ?q = "(2::real) powi (expo x - 52)"
  have q: "0 < ?q" by simp
  have split: "(2::real) powi (expo x) = of_int (2 ^ 52) * ?q"
    using power_int_add [of "2::real" "expo x - 52" 52] by (simp add: mult.commute)
  have "of_int (2 ^ 52) \<le> x / ?q"
    using expo_lower [OF assms] q unfolding split by (simp add: pos_le_divide_eq)
  then have "round_even (of_int (2 ^ 52)) \<le> round_even (x / ?q)"
    by (rule round_even_mono)
  then have "2 ^ 52 \<le> round_even (x / ?q)" by (simp only: round_even_of_int)
  then have "(of_int (2 ^ 52) :: real) \<le> of_int (round_even (x / ?q))"
    by (simp only: of_int_le_iff)
  then have "of_int (2 ^ 52) * ?q \<le> of_int (round_even (x / ?q)) * ?q"
    using q by (simp only: mult_le_cancel_right_pos)
  then show ?thesis unfolding split by (simp add: round64_def Let_def)
qed

lemma round64_mono_pos:
  assumes "0 < x" and "x \<le> y"
  shows "round64 x \<le> round64 y"
proof (cases "expo x = expo y")
  case True
  let ?q = "(2::real) powi (expo y - 52)"
  have q: "0 < ?q" by simp
  have "x / ?q \<le> y / ?q" using assms(2) q by (simp add: divide_right_mono)
  then have "round_even (x / ?q) \<le> round_even (y / ?q)" by (rule round_even_mono)
  then have "of_int (round_even (x / ?q)) * ?q \<le> of_int (round_even (y / ?q)) * ?q"
    using q by simp
  then show ?thesis using True by (simp add: round64_def Let_def)
next
  case False
  have y: "0 < y" using assms by simp
  have "expo x \<le> expo y" using assms by (rule expo_mono)
  with False have lt: "expo x + 1 \<le> expo y" by simp
  have "- 1022 \<le> expo x" by (simp add: expo_def)
  with lt have "- 1022 < expo y" by simp
  then have low: "2 powi (expo y) \<le> round64 y" using y by (intro round64_lower)
  have "round64 x \<le> 2 powi (expo x + 1)" using assms(1) by (rule round64_upper)
  also have "\<dots> \<le> 2 powi (expo y)" using lt by (intro power_int_increasing) simp_all
  finally show ?thesis using low by simp
qed

lemma round64_mono:
  assumes "x \<le> y"
  shows "round64 x \<le> round64 y"
proof -
  consider "0 < x" | "x \<le> 0" "0 \<le> y" | "y < 0" by linarith
  then show ?thesis
  proof cases
    case 1
    then show ?thesis using assms by (rule round64_mono_pos)
  next
    case 2
    have "0 \<le> round64 (- x)" using 2(1) by (intro round64_nonneg) simp
    then have "round64 x \<le> 0" by (simp add: round64_minus)
    moreover have "0 \<le> round64 y" using 2(2) by (rule round64_nonneg)
    ultimately show ?thesis by simp
  next
    case 3
    then have "0 < - y" and "- y \<le> - x" using assms by simp_all
    then have "round64 (- y) \<le> round64 (- x)" by (rule round64_mono_pos)
    then show ?thesis by (simp add: round64_minus)
  qed
qed







text \<open>Doubles and operations used in the concrete evaluations below.\<close>

lemma finish_zero: "finish 0 = Fin 0"
  by (simp add: finish_def round64_zero)

lemma finish_one: "finish 1 = Fin 1"
  by (simp add: finish_def round64_one)


lemma finish_48: "finish 48 = Fin 48"
proof -
  have "expo 48 = 5" by (rule expo_eqI) simp_all
  then show ?thesis by (simp add: finish_def round64_def round_even_def Let_def)
qed

lemma finish_49: "finish 49 = Fin 49"
proof -
  have "expo 49 = 5" by (rule expo_eqI) simp_all
  then show ?thesis by (simp add: finish_def round64_def round_even_def Let_def)
qed

lemma finish_inv_49: "finish (1 / 49) = Fin (5882252574524729 / 2 ^ 58)"
proof -
  have "expo (1 / 49) = - 6" by (rule expo_eqI) simp_all
  then show ?thesis by (simp add: finish_def round64_def round_even_def Let_def)
qed

lemma finish_49_times_inv_49:
  "finish (49 * (5882252574524729 / 2 ^ 58)) = Fin (1 - 1 / 2 ^ 53)"
proof -
  have "expo (49 * (5882252574524729 / 2 ^ 58)) = - 1" by (rule expo_eqI) simp_all
  then show ?thesis by (simp add: finish_def round64_def round_even_def Let_def)
qed

lemma finish_three_thirds:
  "finish (3 * (- 6004799503160661 / 2 ^ 54)) = Fin (- 1)"
proof -
  have "expo (3 * (- 6004799503160661 / 2 ^ 54)) = - 1" by (rule expo_eqI) simp_all
  then show ?thesis by (simp add: finish_def round64_def round_even_def Let_def)
qed

lemma finish_third: "finish (- 6004799503160661 / 2 ^ 54) = Fin (- 6004799503160661 / 2 ^ 54)"
proof -
  have "expo (- 6004799503160661 / 2 ^ 54) = - 2" by (rule expo_eqI) simp_all
  then show ?thesis by (simp add: finish_def round64_def round_even_def Let_def)
qed

lemma finish_two: "finish 2 = Fin 2"
proof -
  have "expo 2 = 1" by (rule expo_eqI) simp_all
  then show ?thesis by (simp add: finish_def round64_def round_even_def Let_def)
qed

lemma finish_minus_two: "finish (- 2) = Fin (- 2)"
proof -
  have "expo (- 2) = 1" by (rule expo_eqI) simp_all
  then show ?thesis by (simp add: finish_def round64_def round_even_def Let_def)
qed


lemma finish_2000: "finish 2000 = Fin 2000"
proof -
  have "expo 2000 = 10" by (rule expo_eqI) simp_all
  then show ?thesis by (simp add: finish_def round64_def round_even_def Let_def)
qed

lemma finish_half: "finish (1 / 2) = Fin (1 / 2)"
proof -
  have "expo (1 / 2) = - 1" by (rule expo_eqI) simp_all
  then show ?thesis by (simp add: finish_def round64_def round_even_def Let_def)
qed

lemma finish_minus_half: "finish (- (1 / 2)) = Fin (- (1 / 2))"
proof -
  have "expo (- (1 / 2)) = - 1" by (rule expo_eqI) simp_all
  then show ?thesis by (simp add: finish_def round64_def round_even_def Let_def)
qed


lemma finish_half_pow_2000: "finish ((1 / 2) powr 2000) = Fin 0"
proof -
  have "expo ((1 / 2) ^ 2000) = - 1022" by (rule expo_subnormal) (simp_all add: power_divide)
  then show ?thesis by (simp add: finish_def round64_def round_even_def Let_def power_divide)
qed



text \<open>The rounding error: half a unit in the last place.\<close>

lemma round_even_error: "\<bar>of_int (round_even y) - y\<bar> \<le> 1 / 2"
proof -
  have "of_int \<lfloor>y\<rfloor> \<le> y" "y < of_int \<lfloor>y\<rfloor> + 1" by linarith+
  then show ?thesis by (auto simp: round_even_def Let_def)
qed

lemma expo_lower_abs:
  assumes "2 powi (- 1022) \<le> \<bar>x\<bar>"
  shows "2 powi (expo x) \<le> \<bar>x\<bar>"
proof -
  have pos: "0 < \<bar>x\<bar>"
  proof -
    have "(0::real) < 2 powi (- 1022)" by simp
    with assms show ?thesis by linarith
  qed
  have "(2::real) powr real_of_int (- 1022) = 2 powi (- 1022)"
    by (rule powr_real_of_int') simp_all
  with assms have "2 powr real_of_int (- 1022) \<le> \<bar>x\<bar>" by simp
  then have "real_of_int (- 1022) \<le> log 2 \<bar>x\<bar>" using pos by (simp add: le_log_iff)
  then have "- 1022 \<le> \<lfloor>log 2 \<bar>x\<bar>\<rfloor>" by (simp add: le_floor_iff)
  then have e: "expo x = \<lfloor>log 2 \<bar>x\<bar>\<rfloor>" by (simp add: expo_def)
  have "real_of_int (expo x) \<le> log 2 \<bar>x\<bar>" unfolding e by simp
  then have "2 powr real_of_int (expo x) \<le> \<bar>x\<bar>" using pos by (simp add: le_log_iff)
  moreover have "(2::real) powr real_of_int (expo x) = 2 powi (expo x)"
    by (rule powr_real_of_int') simp_all
  ultimately show ?thesis by simp
qed

lemma round64_abs_error: "\<bar>round64 x - x\<bar> \<le> 2 powi (expo x - 53)"
proof -
  let ?q = "(2::real) powi (expo x - 52)"
  have q: "0 < ?q" by simp
  have "round64 x - x = (of_int (round_even (x / ?q)) - x / ?q) * ?q"
    using q by (simp add: round64_def Let_def algebra_simps)
  then have "\<bar>round64 x - x\<bar> = \<bar>of_int (round_even (x / ?q)) - x / ?q\<bar> * ?q"
    using q by (simp add: abs_mult)
  also have "\<dots> \<le> (1 / 2) * ?q"
    using round_even_error [of "x / ?q"] q by (intro mult_right_mono) simp_all
  also have "(1 / 2) * ?q = 2 powi (expo x - 53)"
    using power_int_add [of "2::real" "expo x - 53" 1] by simp
  finally show ?thesis .
qed

lemma round64_rel_error:
  assumes "2 powi (- 1022) \<le> \<bar>x\<bar>"
  shows "\<bar>round64 x - x\<bar> \<le> \<bar>x\<bar> / 2 ^ 53"
proof -
  have "(2::real) powi (expo x - 53) = 2 powi (expo x) / 2 ^ 53"
    by (simp add: power_int_diff)
  also have "\<dots> \<le> \<bar>x\<bar> / 2 ^ 53"
    using expo_lower_abs [OF assms] by (intro divide_right_mono) simp_all
  finally show ?thesis using round64_abs_error [of x] by linarith
qed

lemma round64_two_1023: "round64 (2 ^ 1023) = 2 ^ 1023"
proof -
  have "expo (2 ^ 1023) = 1023" by (rule expo_eqI) simp_all
  then show ?thesis by (simp add: round64_def round_even_def Let_def)
qed

lemma finish_in_range:
  assumes "\<bar>x\<bar> \<le> 2 ^ 1023"
  shows "finish x = Fin (round64 x)"
proof -
  have "round64 x \<le> round64 (2 ^ 1023)" using assms by (intro round64_mono) simp
  then have up: "round64 x \<le> 2 ^ 1023" by (simp only: round64_two_1023)
  have "round64 (- (2 ^ 1023)) \<le> round64 x" using assms by (intro round64_mono) simp
  then have lo: "- (2 ^ 1023) \<le> round64 x" by (simp only: round64_minus round64_two_1023)
  show ?thesis using up lo by (simp add: finish_def Let_def)
qed


lemma rounded_in_normal_range:
  assumes "in_normal_range x"
  shows "finish x = Fin (round64 x) \<and> \<bar>round64 x - x\<bar> \<le> \<bar>x\<bar> / 2 ^ 53"
  using assms finish_in_range [of x] round64_rel_error [of x]
  by (simp add: in_normal_range_def)

lemma fraction_le_self:
  fixes a :: real
  assumes "0 \<le> a"
  shows "a / 2 ^ 53 \<le> a"
  using assms by (simp add: field_simps)

lemma in_normal_range_near:
  assumes "2 powi (- 1021) \<le> \<bar>c\<bar>" and "\<bar>c\<bar> \<le> 2 ^ 1022" and near: "\<bar>x - c\<bar> \<le> \<bar>c\<bar> / 2"
  shows "in_normal_range x"
proof -
  have lo: "(2::real) powi (- 1022) = 2 powi (- 1021) / 2"
    using power_int_diff [of "2::real" "- 1021" 1] by simp
  have hi: "(2::real) ^ 1023 = 2 * 2 ^ 1022" by simp
  have "2 powi (- 1021) / 2 \<le> \<bar>x\<bar>" using near assms(1) by linarith
  moreover have "\<bar>x\<bar> \<le> 2 * 2 ^ 1022" using near assms(2) by linarith
  ultimately show ?thesis unfolding in_normal_range_def lo hi by simp
qed

section \<open>Auxiliary facts: the formulas over doubles\<close>











lemma f64_simple_pv_error:
  assumes den: "f64_add (Fin 1) (f64_mul t r) = Fin d"
    and inv: "in_normal_range (1 / d)"
    and lo: "2 powi (- 1021) \<le> \<bar>V / d\<bar>" and hi: "\<bar>V / d\<bar> \<le> 2 ^ 1022"
  shows "\<exists>w. simple_interest_pv_f64 (Fin V) r t = Inr (Fin w) \<and>
             \<bar>w - V / d\<bar> \<le> \<bar>V / d\<bar> / 2 ^ 51"
proof -
  define e where "e = round64 (1 / d)"
  define w where "w = round64 (V * e)"
  define c where "c = V / d"
  have nz: "d \<noteq> 0" using inv by (auto simp: in_normal_range_def)
  have e: "finish (1 / d) = Fin e" and ee: "\<bar>e - 1 / d\<bar> \<le> \<bar>1 / d\<bar> / 2 ^ 53"
    using rounded_in_normal_range [OF inv] by (simp_all add: e_def)
  have "V * e - c = V * (e - 1 / d)" by (simp add: c_def algebra_simps)
  then have "\<bar>V * e - c\<bar> = \<bar>V\<bar> * \<bar>e - 1 / d\<bar>" by (simp add: abs_mult)
  also have "\<dots> \<le> \<bar>V\<bar> * (\<bar>1 / d\<bar> / 2 ^ 53)"
    using ee by (intro mult_left_mono) simp_all
  also have "\<dots> = \<bar>c\<bar> / 2 ^ 53" by (simp add: c_def abs_divide)
  finally have q: "\<bar>V * e - c\<bar> \<le> \<bar>c\<bar> / 2 ^ 53" .
  have "\<bar>c\<bar> / 2 ^ 53 \<le> \<bar>c\<bar> / 2" by (intro divide_left_mono) simp_all
  with q have "\<bar>V * e - c\<bar> \<le> \<bar>c\<bar> / 2" by linarith
  then have nr: "in_normal_range (V * e)"
    using lo hi unfolding c_def [symmetric] by (intro in_normal_range_near [of c])
  have w: "finish (V * e) = Fin w" and ew: "\<bar>w - V * e\<bar> \<le> \<bar>V * e\<bar> / 2 ^ 53"
    using rounded_in_normal_range [OF nr] by (simp_all add: w_def)
  have "\<bar>V * e\<bar> \<le> 2 * \<bar>c\<bar>"
  proof -
    have "\<bar>c\<bar> / 2 ^ 53 \<le> \<bar>c\<bar>" by (rule fraction_le_self) simp
    with q show ?thesis by linarith
  qed
  then have "\<bar>V * e\<bar> / 2 ^ 53 \<le> (2 * \<bar>c\<bar>) / 2 ^ 53" by (intro divide_right_mono) simp_all
  with ew have "\<bar>w - V * e\<bar> \<le> (2 * \<bar>c\<bar>) / 2 ^ 53" by linarith
  with q have "\<bar>w - c\<bar> \<le> (2 * \<bar>c\<bar>) / 2 ^ 53 + \<bar>c\<bar> / 2 ^ 53" by linarith
  also have "\<dots> \<le> \<bar>c\<bar> / 2 ^ 51" by (simp add: field_simps)
  finally have bound: "\<bar>w - V / d\<bar> \<le> \<bar>V / d\<bar> / 2 ^ 51" unfolding c_def .
  have "simple_interest_pv_f64 (Fin V) r t = Inr (Fin w)"
    using den e w nz by (simp add: simple_interest_pv_f64_def f64_truediv_def bind_result_Inr)
  then show ?thesis using bound by blast
qed

lemma f64_compounded_round_trip:
  assumes q: "f64_truediv r m = Inr q"
    and p: "float_pow_f64 (f64_add (Fin 1) q) (f64_mul t m) = Inr (Float64 (Fin p))"
    and prod: "in_normal_range (P * p)" and inv: "in_normal_range (1 / p)"
    and lo: "2 powi (- 1021) \<le> \<bar>P\<bar>" and hi: "\<bar>P\<bar> \<le> 2 ^ 1022"
  shows "\<exists>v w. compounded_interest_fv_f64 (Fin P) r t m = Inr (Float64 (Fin v)) \<and>
               compounded_interest_pv_f64 (Fin v) r t m = Inr (Float64 (Fin w)) \<and>
               \<bar>w - P\<bar> \<le> \<bar>P\<bar> / 2 ^ 50"
proof -
  define v where "v = round64 (P * p)"
  define d where "d = round64 (1 / p)"
  define w where "w = round64 (v * d)"
  have nz: "p \<noteq> 0" using inv by (auto simp: in_normal_range_def)
  have v: "finish (P * p) = Fin v" and ev: "\<bar>v - P * p\<bar> \<le> \<bar>P * p\<bar> / 2 ^ 53"
    using rounded_in_normal_range [OF prod] by (simp_all add: v_def)
  have d: "finish (1 / p) = Fin d" and ed: "\<bar>d - 1 / p\<bar> \<le> \<bar>1 / p\<bar> / 2 ^ 53"
    using rounded_in_normal_range [OF inv] by (simp_all add: d_def)
  have d2: "\<bar>d\<bar> \<le> 2 * \<bar>1 / p\<bar>"
  proof -
    have "\<bar>1 / p\<bar> / 2 ^ 53 \<le> \<bar>1 / p\<bar>" by (rule fraction_le_self) simp
    with ed show ?thesis by linarith
  qed
  have unit: "\<bar>P * p\<bar> * \<bar>1 / p\<bar> = \<bar>P\<bar>" using nz by (simp add: abs_mult abs_divide)
  have "\<bar>(v - P * p) * d\<bar> = \<bar>v - P * p\<bar> * \<bar>d\<bar>" by (simp add: abs_mult)
  also have "\<dots> \<le> (\<bar>P * p\<bar> / 2 ^ 53) * (2 * \<bar>1 / p\<bar>)"
    using ev d2 by (intro mult_mono) simp_all
  also have "\<dots> = 2 * (\<bar>P * p\<bar> * \<bar>1 / p\<bar>) / 2 ^ 53" by simp
  finally have t1: "\<bar>(v - P * p) * d\<bar> \<le> 2 * \<bar>P\<bar> / 2 ^ 53" unfolding unit .
  have "\<bar>P * p * (d - 1 / p)\<bar> = \<bar>P * p\<bar> * \<bar>d - 1 / p\<bar>" by (simp add: abs_mult)
  also have "\<dots> \<le> \<bar>P * p\<bar> * (\<bar>1 / p\<bar> / 2 ^ 53)"
    using ed by (intro mult_left_mono) simp_all
  also have "\<dots> = (\<bar>P * p\<bar> * \<bar>1 / p\<bar>) / 2 ^ 53" by simp
  finally have t2: "\<bar>P * p * (d - 1 / p)\<bar> \<le> \<bar>P\<bar> / 2 ^ 53" unfolding unit .
  have "v * d - P = (v - P * p) * d + P * p * (d - 1 / p)"
    using nz by (simp add: algebra_simps)
  then have "\<bar>v * d - P\<bar> \<le> \<bar>(v - P * p) * d\<bar> + \<bar>P * p * (d - 1 / p)\<bar>"
    by (simp only: abs_triangle_ineq)
  with t1 t2 have q3: "\<bar>v * d - P\<bar> \<le> 3 * \<bar>P\<bar> / 2 ^ 53" by linarith
  have "3 * \<bar>P\<bar> / 2 ^ 53 \<le> \<bar>P\<bar> / 2" by (simp add: field_simps)
  with q3 have "\<bar>v * d - P\<bar> \<le> \<bar>P\<bar> / 2" by linarith
  then have nr: "in_normal_range (v * d)" using lo hi by (intro in_normal_range_near [of P])
  have w: "finish (v * d) = Fin w" and ew: "\<bar>w - v * d\<bar> \<le> \<bar>v * d\<bar> / 2 ^ 53"
    using rounded_in_normal_range [OF nr] by (simp_all add: w_def)
  have "\<bar>v * d\<bar> \<le> 2 * \<bar>P\<bar>"
  proof -
    have "3 * \<bar>P\<bar> / 2 ^ 53 \<le> \<bar>P\<bar>" by (simp add: field_simps)
    with q3 show ?thesis by linarith
  qed
  then have "\<bar>v * d\<bar> / 2 ^ 53 \<le> (2 * \<bar>P\<bar>) / 2 ^ 53" by (intro divide_right_mono) simp_all
  with ew have "\<bar>w - v * d\<bar> \<le> (2 * \<bar>P\<bar>) / 2 ^ 53" by linarith
  with q3 have "\<bar>w - P\<bar> \<le> (2 * \<bar>P\<bar>) / 2 ^ 53 + 3 * \<bar>P\<bar> / 2 ^ 53" by linarith
  also have "\<dots> \<le> \<bar>P\<bar> / 2 ^ 50" by (simp add: field_simps)
  finally have bound: "\<bar>w - P\<bar> \<le> \<bar>P\<bar> / 2 ^ 50" .
  have fv: "compounded_interest_fv_f64 (Fin P) r t m = Inr (Float64 (Fin v))"
    using q p v by (simp add: compounded_interest_fv_f64_def bind_result_Inr)
  have pv: "compounded_interest_pv_f64 (Fin v) r t m = Inr (Float64 (Fin w))"
    using q p d w nz
    by (simp add: compounded_interest_pv_f64_def bind_result_Inr f64_truediv_def)
  show ?thesis using fv pv bound by blast
qed



lemma in_normal_range_half: "in_normal_range (1 / 2)"
  by (simp add: in_normal_range_def power_int_minus field_simps)


lemma in_normal_range_six: "in_normal_range (3 * 2)"
  by (simp add: in_normal_range_def power_int_minus field_simps)

lemma three_in_range: "2 powi (- 1021) \<le> \<bar>3::real\<bar> \<and> \<bar>3::real\<bar> \<le> 2 ^ 1022"
  by (simp add: power_int_minus field_simps)

lemma three_halves_in_range:
  "2 powi (- 1021) \<le> \<bar>3 / 2 :: real\<bar> \<and> \<bar>3 / 2 :: real\<bar> \<le> 2 ^ 1022"
  by (simp add: power_int_minus field_simps)

lemma one_plus_one_f64: "f64_add (Fin 1) (f64_mul (Fin 1) (Fin 1)) = Fin 2"
  using finish_one finish_two by simp

lemma one_over_one_f64: "f64_truediv (Fin 1) (Fin 1) = Inr (Fin 1)"
  using finish_one by (simp add: f64_truediv_def)

lemma two_pow_one_f64:
  "float_pow_f64 (f64_add (Fin 1) (Fin 1)) (f64_mul (Fin 1) (Fin 1)) = Inr (Float64 (Fin 2))"
  using finish_one finish_two by (simp add: float_pow_f64_def is_inf_def)


section \<open>Effective rate: the invalid method (C1)\<close>

text \<open>
  Claim C1 asks that \<^verbatim>\<open>effective_rate(r, m, method)\<close> with a method other than
  \<^verbatim>\<open>"continuous"\<close> and \<^verbatim>\<open>"periodic"\<close> signals a failure instead of completing with a
  normal return value. The source writes \<^verbatim>\<open>return ValueError(...)\<close> where a
  \<^verbatim>\<open>raise\<close> was meant: for every rate, every frequency (given or defaulted) and every
  such method the call completes normally, and the value it returns is the exception
  object.
\<close>

theorem effective_rate_invalid_method_returns_object:
  assumes "method \<noteq> ''continuous''" and "method \<noteq> ''periodic''"
  shows "effective_rate r m (Some method) =
           Inr (ExcObject (ValueError ''The compounding method is not valid''))"
  using assms by (simp add: effective_rate_def)

theorem effective_rate_invalid_method_returns_object_witness:
  "''bogus'' \<noteq> ''continuous'' \<and> ''bogus'' \<noteq> ''periodic'' \<and>
   effective_rate (1 / 10) (Some 1) (Some ''bogus'') =
     Inr (ExcObject (ValueError ''The compounding method is not valid''))"
  using effective_rate_invalid_method_returns_object [of "''bogus''" "1 / 10" "Some 1"]
  by simp

section \<open>Division by zero (C2)\<close>



section \<open>Effective rate: formulas and defaults (C3)\<close>




section \<open>Simple interest (C4, C5)\<close>

text \<open>
  Claim C4 asks that the code's \<open>V_t * (1/(1 + t*r))\<close> equal the quotient
  \<open>V_t / (1 + t*r)\<close>. In doubles it does not: \<^verbatim>\<open>simple_interest_pv(49.0, 48.0, 1.0)\<close>
  returns \<open>1 - 2^-53\<close>, while the quotient \<open>49 / (1 + 1*48)\<close> is 1. And with
  \<open>t = 3\<close> and \<open>r\<close> the double next to \<open>-1/3\<close>, the exact \<open>1 + t*r\<close> is not zero, but
  the product rounds to \<open>-1\<close> and the call raises \<^verbatim>\<open>ZeroDivisionError\<close>.
\<close>

theorem simple_interest_pv_rounding:
  "simple_interest_pv_f64 (Fin 49) (Fin 48) (Fin 1) = Inr (Fin (1 - 1 / 2 ^ 53)) \<and>
   f64_truediv (Fin 49) (f64_add (Fin 1) (f64_mul (Fin 1) (Fin 48))) = Inr (Fin 1) \<and>
   finish (- 6004799503160661 / 2 ^ 54) = Fin (- 6004799503160661 / 2 ^ 54) \<and>
   1 + 3 * (- 6004799503160661 / 2 ^ 54) \<noteq> (0::real) \<and>
   simple_interest_pv_f64 (Fin 100) (Fin (- 6004799503160661 / 2 ^ 54)) (Fin 3) =
     Inl ZeroDivisionError"
  using finish_three_thirds finish_third finish_48 finish_49 finish_inv_49
    finish_49_times_inv_49 finish_one finish_zero
  by (simp add: simple_interest_pv_f64_def f64_truediv_def bind_result_Inr bind_result_Inl)

text \<open>
  Claim C4, amended: over exact arithmetic, for every \<open>P\<close>, \<open>r\<close>, \<open>t\<close> the future value
  under simple interest is \<open>P * (1 + t*r)\<close>; and for every \<open>V_t\<close>, \<open>r\<close>, \<open>t\<close> with
  \<open>1 + t*r \<noteq> 0\<close> the present value, which the code computes as
  \<open>V_t * (1/(1 + t*r))\<close>, is the quotient \<open>V_t / (1 + t*r)\<close>. In doubles the two forms
  agree up to rounding: where \<open>d\<close> is the double that the code computes for \<open>1 + t*r\<close>,
  \<open>1/d\<close> is in the normal range and \<open>2^-1021 \<le> |V_t/d| \<le> 2^1022\<close>, the present value is a
  finite number within the relative error \<open>2^-51\<close> of \<open>V_t / d\<close>.
\<close>

theorem simple_interest_formulas:
  "simple_interest_fv P r t = P * (1 + t * r) \<and>
   (1 + t' * r' \<noteq> 0 \<longrightarrow> simple_interest_pv V_t r' t' = Inr (V_t / (1 + t' * r'))) \<and>
   (f64_add (Fin 1) (f64_mul t'' r'') = Fin d \<and> in_normal_range (1 / d) \<and>
    2 powi (- 1021) \<le> \<bar>V / d\<bar> \<and> \<bar>V / d\<bar> \<le> 2 ^ 1022 \<longrightarrow>
    (\<exists>w. simple_interest_pv_f64 (Fin V) r'' t'' = Inr (Fin w) \<and>
         \<bar>w - V / d\<bar> \<le> \<bar>V / d\<bar> / 2 ^ 51))"
proof -
  have a: "simple_interest_fv P r t = P * (1 + t * r)"
    by (simp add: simple_interest_fv_def)
  have b: "1 + t' * r' \<noteq> 0 \<longrightarrow> simple_interest_pv V_t r' t' = Inr (V_t / (1 + t' * r'))"
    by (simp add: simple_interest_pv_def float_truediv_nonzero bind_result_Inr)
  have c: "f64_add (Fin 1) (f64_mul t'' r'') = Fin d \<and> in_normal_range (1 / d) \<and>
      2 powi (- 1021) \<le> \<bar>V / d\<bar> \<and> \<bar>V / d\<bar> \<le> 2 ^ 1022 \<longrightarrow>
      (\<exists>w. simple_interest_pv_f64 (Fin V) r'' t'' = Inr (Fin w) \<and>
           \<bar>w - V / d\<bar> \<le> \<bar>V / d\<bar> / 2 ^ 51)"
    using f64_simple_pv_error [of t'' r'' d V] by blast
  show ?thesis by (intro conjI a b c)
qed

theorem simple_interest_formulas_witness:
  "simple_interest_fv 1000 (5 / 100) 2 = 1100 \<and> 1 + 2 * (5 / 100) \<noteq> (0::real) \<and>
   simple_interest_pv 1100 (5 / 100) 2 = Inr 1000 \<and>
   f64_add (Fin 1) (f64_mul (Fin 1) (Fin 1)) = Fin 2 \<and> in_normal_range (1 / 2) \<and>
   2 powi (- 1021) \<le> \<bar>3 / 2 :: real\<bar> \<and> \<bar>3 / 2 :: real\<bar> \<le> 2 ^ 1022 \<and>
   (\<exists>w. simple_interest_pv_f64 (Fin 3) (Fin 1) (Fin 1) = Inr (Fin w) \<and>
        \<bar>w - 3 / 2\<bar> \<le> \<bar>3 / 2\<bar> / 2 ^ 51)"
  using simple_interest_formulas [of 1000 "5 / 100" 2 2 "5 / 100" 1100 "Fin 1" "Fin 1" 2 3]
    one_plus_one_f64 in_normal_range_half three_halves_in_range
  by simp



section \<open>Compounded interest (C6)\<close>

text \<open>
  Claim C6 states the round trip as an equality. In doubles it fails: with \<open>P = 1\<close>,
  \<open>r = -0.5\<close>, \<open>t = 2000\<close>, \<open>m = 1\<close>, where \<open>1 + r/m = 0.5 > 0\<close>, the power
  \<open>0.5 ** 2000\<close> underflows to 0, the future value is 0, and the present value of it
  divides by that 0.
\<close>

theorem compounded_interest_roundtrip_underflow:
  "compounded_interest_fv_f64 (Fin 1) (Fin (- (1 / 2))) (Fin 2000) (Fin 1) =
     Inr (Float64 (Fin 0)) \<and>
   compounded_interest_pv_f64 (Fin 0) (Fin (- (1 / 2))) (Fin 2000) (Fin 1) =
     Inl ZeroDivisionError"
  using finish_minus_half finish_half finish_2000 finish_half_pow_2000 finish_zero
  by (simp add: compounded_interest_fv_f64_def compounded_interest_pv_f64_def
      f64_truediv_def float_pow_f64_def is_inf_def bind_result_Inr bind_result_Inl)

text \<open>
  Claim C6, amended: over exact arithmetic, for all \<open>P\<close>, \<open>r \<noteq> 0\<close>, \<open>t\<close> and \<open>m \<noteq> 0\<close>
  with \<open>1 + r/m > 0\<close>, the future value of \<open>P\<close> is a float \<open>v\<close>, and the present value
  of \<open>v\<close> for the same \<open>r\<close>, \<open>t\<close>, \<open>m\<close> is \<open>P\<close>: the two functions are inverses of one
  another. In doubles the round trip holds up to rounding: where \<open>p\<close> is the finite power
  \<open>(1 + r/m) ** (t*m)\<close> that both calls compute, \<open>P * p\<close> and \<open>1/p\<close> are in the normal
  range and \<open>2^-1021 \<le> |P| \<le> 2^1022\<close>, both calls return finite numbers and the result is
  within the relative error \<open>2^-50\<close> of \<open>P\<close>.
\<close>

theorem compounded_interest_roundtrip:
  assumes "r \<noteq> 0" and "m \<noteq> 0" and "0 < 1 + r / m"
  shows "(\<exists>v. compounded_interest_fv P r t m = Inr (PyFloat v) \<and>
              compounded_interest_pv v r t m = Inr (PyFloat P)) \<and>
         (f64_truediv r' m' = Inr q \<and>
          float_pow_f64 (f64_add (Fin 1) q) (f64_mul t' m') = Inr (Float64 (Fin p)) \<and>
          in_normal_range (P' * p) \<and> in_normal_range (1 / p) \<and>
          2 powi (- 1021) \<le> \<bar>P'\<bar> \<and> \<bar>P'\<bar> \<le> 2 ^ 1022 \<longrightarrow>
          (\<exists>v w. compounded_interest_fv_f64 (Fin P') r' t' m' = Inr (Float64 (Fin v)) \<and>
                 compounded_interest_pv_f64 (Fin v) r' t' m' = Inr (Float64 (Fin w)) \<and>
                 \<bar>w - P'\<bar> \<le> \<bar>P'\<bar> / 2 ^ 50))"
proof -
  have a: "\<exists>v. compounded_interest_fv P r t m = Inr (PyFloat v) \<and>
               compounded_interest_pv v r t m = Inr (PyFloat P)"
    using assms
    by (simp add: compounded_interest_fv_def compounded_interest_pv_def float_truediv_nonzero
        bind_result_Inr float_pow_pos)
  have b: "f64_truediv r' m' = Inr q \<and>
      float_pow_f64 (f64_add (Fin 1) q) (f64_mul t' m') = Inr (Float64 (Fin p)) \<and>
      in_normal_range (P' * p) \<and> in_normal_range (1 / p) \<and>
      2 powi (- 1021) \<le> \<bar>P'\<bar> \<and> \<bar>P'\<bar> \<le> 2 ^ 1022 \<longrightarrow>
      (\<exists>v w. compounded_interest_fv_f64 (Fin P') r' t' m' = Inr (Float64 (Fin v)) \<and>
             compounded_interest_pv_f64 (Fin v) r' t' m' = Inr (Float64 (Fin w)) \<and>
             \<bar>w - P'\<bar> \<le> \<bar>P'\<bar> / 2 ^ 50)"
    using f64_compounded_round_trip [of r' m' q t' p P'] by blast
  show ?thesis by (intro conjI a b)
qed

theorem compounded_interest_roundtrip_witness:
  "(6 / 100 :: real) \<noteq> 0 \<and> (4::real) \<noteq> 0 \<and> (0::real) < 1 + (6 / 100) / 4 \<and>
   (\<exists>v. compounded_interest_fv 1000 (6 / 100) 3 4 = Inr (PyFloat v) \<and>
        compounded_interest_pv v (6 / 100) 3 4 = Inr (PyFloat 1000)) \<and>
   f64_truediv (Fin 1) (Fin 1) = Inr (Fin 1) \<and>
   float_pow_f64 (f64_add (Fin 1) (Fin 1)) (f64_mul (Fin 1) (Fin 1)) = Inr (Float64 (Fin 2)) \<and>
   in_normal_range (3 * 2) \<and> in_normal_range (1 / 2) \<and>
   2 powi (- 1021) \<le> \<bar>3::real\<bar> \<and> \<bar>3::real\<bar> \<le> 2 ^ 1022 \<and>
   (\<exists>v w. compounded_interest_fv_f64 (Fin 3) (Fin 1) (Fin 1) (Fin 1) = Inr (Float64 (Fin v)) \<and>
          compounded_interest_pv_f64 (Fin v) (Fin 1) (Fin 1) (Fin 1) = Inr (Float64 (Fin w)) \<and>
          \<bar>w - 3\<bar> \<le> \<bar>3\<bar> / 2 ^ 50)"
  using compounded_interest_roundtrip [of "6 / 100" 4 1000 3 "Fin 1" "Fin 1" "Fin 1" "Fin 1" 2 3]
    one_over_one_f64 two_pow_one_f64 in_normal_range_six in_normal_range_half three_in_range
  by simp

section \<open>Annuities (C7, C8)\<close>







section \<open>Continuous compounding (C9)\<close>




section \<open>Effective rate: the continuous method ignores the frequency (C10)\<close>

text \<open>
  Claim C10: with the continuous method the result of \<open>effective_rate\<close> does not depend
  on the compounding frequency: for every rate \<open>r\<close> and any two frequencies \<open>m1\<close> and
  \<open>m2\<close> (each given or left to its default) the two calls give the same result.
\<close>

theorem effective_rate_continuous_ignores_frequency:
  "effective_rate r m1 (Some ''continuous'') = effective_rate r m2 (Some ''continuous'')"
  by (simp add: effective_rate_def)

end
